theory Spec2Isabelle
  imports Main "HOL-Library.Log_Nat"
begin

section \<open>Values, exceptions and addresses\<close>

text \<open>
  A server address is the pair \<open>(host, port)\<close> that \<open>SocketAddress.parse\<close> produces.
\<close>

type_synonym address = "string \<times> nat"

text \<open>
  The routing records handed to \<open>RoutingTable.parse_routing_info\<close> are dynamically typed
  Python values: the values a Bolt record can carry (no floats are modelled). A dictionary
  is an association list in which the first binding of a key is the one looked up.
\<close>

datatype pyval =
    PNone
  | PBool bool
  | PInt int
  | PStr string
  | PList "pyval list"
  | PDict "(string \<times> pyval) list"

text \<open>
  Exception classes. The five classes that \<open>handle\<close> tests for are imported from
  \<open>neobolt.exceptions\<close>, \<open>RoutingProtocolError\<close> from \<open>neobolt.routing\<close>; the others are
  Python builtins. \<open>Subclass c n\<close> is a class named \<open>n\<close> that derives from \<open>c\<close>;
  \<open>OtherClass n\<close> is any class unrelated to the named ones. The named classes are taken
  as unrelated to one another.
\<close>

datatype error_class =
    ConnectionExpired
  | ServiceUnavailable
  | DatabaseUnavailableError
  | NotALeaderError
  | ForbiddenOnReadOnlyDatabaseError
  | RoutingProtocolError
  | KeyError
  | TypeError
  | ValueError
  | IndexError
  | OverflowError
  | Subclass error_class string
  | OtherClass string

text \<open>An exception instance: its class and its message (\<open>args\<close>).\<close>

datatype exn = Exn error_class string

fun error_class_of :: "exn \<Rightarrow> error_class" where
  "error_class_of (Exn c m) = c"

fun args :: "exn \<Rightarrow> string" where
  "args (Exn c m) = m"

text \<open>\<open>issubclass c p\<close>: what an \<open>except p\<close> clause tests on the class of the exception.\<close>

fun issubclass :: "error_class \<Rightarrow> error_class \<Rightarrow> bool" where
  "issubclass (Subclass c n) p = (Subclass c n = p \<or> issubclass c p)"
| "issubclass c p = (c = p)"

definition isinstance :: "exn \<Rightarrow> error_class \<Rightarrow> bool" where
  "isinstance e p = issubclass (error_class_of e) p"

text \<open>
  Modelled from the spec: the two access modes \<open>READ_ACCESS\<close> and \<open>WRITE_ACCESS\<close> are
  constants of \<open>neobolt.routing\<close>, a module that is not among the sources; the spec
  names them as the two symbols READ and WRITE.
\<close>

definition READ_ACCESS :: string where
  "READ_ACCESS = ''READ''"

definition WRITE_ACCESS :: string where
  "WRITE_ACCESS = ''WRITE''"

text \<open>\<open>sys.maxsize\<close> of a 64-bit CPython build.\<close>

definition maxsize :: int where
  "maxsize = 2 ^ 63 - 1"

section \<open>Python floats\<close>

text \<open>
  A Python \<open>float\<close> is an IEEE 754 double. Every finite double is a whole multiple of
  \<open>2\<^sup>-\<^sup>1\<^sup>0\<^sup>7\<^sup>4\<close>: \<open>Finite k\<close> is the double \<open>k * 2\<^sup>-\<^sup>1\<^sup>0\<^sup>7\<^sup>4\<close>. The two zeros are not told apart.
\<close>

datatype pyfloat = Finite int | PosInf | NegInf | NaN

text \<open>The double of a whole number (of seconds).\<close>

definition seconds :: "int \<Rightarrow> pyfloat" where
  "seconds k = Finite (k * 2 ^ 1074)"

text \<open>
  Rounding of the exact value \<open>x * 2\<^sup>-\<^sup>1\<^sup>0\<^sup>7\<^sup>4\<close> to a double: to the nearest value with 53
  significant bits, a tie going to the even one; a result of \<open>2\<^sup>1\<^sup>0\<^sup>2\<^sup>4\<close> or more in
  magnitude is an infinity.
\<close>

definition round53 :: "int \<Rightarrow> pyfloat" where
  "round53 x =
     (let s = nat (bitlen \<bar>x\<bar> - 53);
          q = x div 2 ^ s;
          r = x mod 2 ^ s;
          q' = (if 2 * r < 2 ^ s then q
                else if 2 ^ s < 2 * r then q + 1
                else if even q then q else q + 1);
          y = q' * 2 ^ s
      in if 2 ^ 2098 \<le> y then PosInf
         else if y \<le> - (2 ^ 2098) then NegInf
         else Finite y)"

text \<open>\<open>x + y\<close> on doubles.\<close>

fun double_add :: "pyfloat \<Rightarrow> pyfloat \<Rightarrow> pyfloat" where
  "double_add (Finite a) (Finite b) = round53 (a + b)"
| "double_add NaN y = NaN"
| "double_add x NaN = NaN"
| "double_add PosInf NegInf = NaN"
| "double_add NegInf PosInf = NaN"
| "double_add PosInf y = PosInf"
| "double_add x PosInf = PosInf"
| "double_add NegInf y = NegInf"
| "double_add x NegInf = NegInf"

text \<open>\<open>x <= y\<close> on doubles.\<close>

fun double_le :: "pyfloat \<Rightarrow> pyfloat \<Rightarrow> bool" where
  "double_le (Finite a) (Finite b) = (a \<le> b)"
| "double_le NaN y = False"
| "double_le x NaN = False"
| "double_le NegInf y = True"
| "double_le x PosInf = True"
| "double_le PosInf y = False"
| "double_le x NegInf = False"

text \<open>
  The conversion of a Python \<open>int\<close> that \<open>float + int\<close> makes: the nearest double, or
  \<open>OverflowError\<close> when that is no finite double.
\<close>

definition int_to_double :: "int \<Rightarrow> exn + pyfloat" where
  "int_to_double i =
     (case round53 (i * 2 ^ 1074) of
        Finite y \<Rightarrow> Inr (Finite y)
      | _ \<Rightarrow> Inl (Exn OverflowError ''int too large to convert to float''))"

text \<open>
  \<open>scaled x\<close> is the finite double \<open>x\<close> in units of \<open>2\<^sup>-\<^sup>1\<^sup>0\<^sup>7\<^sup>4\<close>; \<open>valid_double x\<close> says that
  \<open>x\<close> is a finite double (rounding leaves it as it is).
\<close>

fun scaled :: "pyfloat \<Rightarrow> int" where
  "scaled (Finite a) = a"
| "scaled x = 0"

fun valid_double :: "pyfloat \<Rightarrow> bool" where
  "valid_double (Finite a) = (round53 a = Finite a)"
| "valid_double x = False"

section \<open>OrderedSet: set objects in a store\<close>

text \<open>
  An \<open>OrderedSet\<close> is a mutable object: two names can denote the same set, and a change
  made through one is seen through the other. The objects therefore live in a store; a
  reference is a location of the store, and the content of a location is the list of the
  keys of the object's \<open>OrderedDict\<close> in insertion order.
\<close>

type_synonym ref = nat

record heap =
  cells :: "ref \<Rightarrow> address list"
  fresh :: ref

text \<open>\<open>e[element] = None\<close> on an \<open>OrderedDict\<close>: a new key goes last, a known key stays.\<close>

definition setitem :: "'a \<Rightarrow> 'a list \<Rightarrow> 'a list" where
  "setitem element e = (if element \<in> set e then e else e @ [element])"

text \<open>\<open>e.update(OrderedDict.fromkeys(elements))\<close>: the keys are set one by one, in order.\<close>

definition dict_update :: "'a list \<Rightarrow> 'a list \<Rightarrow> 'a list" where
  "dict_update elements e = fold setitem elements e"

definition fromkeys :: "'a list \<Rightarrow> 'a list" where
  "fromkeys elements = dict_update elements []"

definition OrderedSet_init :: "address list \<Rightarrow> heap \<Rightarrow> ref \<times> heap" where
  "OrderedSet_init elements h =
     (fresh h, h\<lparr>cells := (cells h)(fresh h := fromkeys elements), fresh := Suc (fresh h)\<rparr>)"

definition OrderedSet_contains :: "heap \<Rightarrow> ref \<Rightarrow> address \<Rightarrow> bool" where
  "OrderedSet_contains h r element = (element \<in> set (cells h r))"

definition OrderedSet_iter :: "heap \<Rightarrow> ref \<Rightarrow> address list" where
  "OrderedSet_iter h r = cells h r"

definition OrderedSet_len :: "heap \<Rightarrow> ref \<Rightarrow> nat" where
  "OrderedSet_len h r = length (cells h r)"

definition OrderedSet_add :: "ref \<Rightarrow> address \<Rightarrow> heap \<Rightarrow> heap" where
  "OrderedSet_add r element h = h\<lparr>cells := (cells h)(r := setitem element (cells h r))\<rparr>"

definition OrderedSet_clear :: "ref \<Rightarrow> heap \<Rightarrow> heap" where
  "OrderedSet_clear r h = h\<lparr>cells := (cells h)(r := [])\<rparr>"

text \<open>\<open>discard\<close>: \<open>del\<close> of the key, a \<open>KeyError\<close> being swallowed.\<close>

definition OrderedSet_discard :: "ref \<Rightarrow> address \<Rightarrow> heap \<Rightarrow> heap" where
  "OrderedSet_discard r element h =
     (if element \<in> set (cells h r)
      then h\<lparr>cells := (cells h)(r := removeAll element (cells h r))\<rparr>
      else h)"

text \<open>\<open>remove\<close>: as \<open>discard\<close>, but an absent element raises \<open>ValueError\<close>.\<close>

definition OrderedSet_remove :: "ref \<Rightarrow> address \<Rightarrow> heap \<Rightarrow> (exn + unit) \<times> heap" where
  "OrderedSet_remove r element h =
     (if element \<in> set (cells h r)
      then (Inr (), h\<lparr>cells := (cells h)(r := removeAll element (cells h r))\<rparr>)
      else (Inl (Exn ValueError []), h))"

definition OrderedSet_update :: "ref \<Rightarrow> address list \<Rightarrow> heap \<Rightarrow> heap" where
  "OrderedSet_update r elements h =
     h\<lparr>cells := (cells h)(r := dict_update elements (cells h r))\<rparr>"

text \<open>
  \<open>replace(elements)\<close> where \<open>elements\<close> is itself an \<open>OrderedSet\<close> (the only use in the
  source): the receiver is cleared first, and the argument is iterated after that.
\<close>

definition OrderedSet_replace :: "ref \<Rightarrow> ref \<Rightarrow> heap \<Rightarrow> heap" where
  "OrderedSet_replace r elements h =
     (let h1 = OrderedSet_clear r h
      in OrderedSet_update r (OrderedSet_iter h1 elements) h1)"

section \<open>RoutingTable\<close>

record RoutingTable =
  routers :: ref
  readers :: ref
  writers :: ref
  last_updated_time :: pyfloat
  ttl :: pyval

text \<open>
  \<open>__init__\<close>: three new set objects, in this order; \<open>now\<close> is what \<open>self.timer()\<close>
  returns at that moment.
\<close>

definition RoutingTable_init ::
  "address list \<Rightarrow> address list \<Rightarrow> address list \<Rightarrow> pyval \<Rightarrow> pyfloat \<Rightarrow> heap \<Rightarrow> RoutingTable \<times> heap"
where
  "RoutingTable_init ro re wr t now h =
     (let (r1, h1) = OrderedSet_init ro h;
          (r2, h2) = OrderedSet_init re h1;
          (r3, h3) = OrderedSet_init wr h2
      in (\<lparr>routers = r1, readers = r2, writers = r3, last_updated_time = now, ttl = t\<rparr>, h3))"

text \<open>\<open>obj[key]\<close> with a string key.\<close>

fun subscript :: "pyval \<Rightarrow> string \<Rightarrow> exn + pyval" where
  "subscript (PDict kvs) key =
     (case map_of kvs key of None \<Rightarrow> Inl (Exn KeyError key) | Some v \<Rightarrow> Inr v)"
| "subscript v key = Inl (Exn TypeError [])"

text \<open>\<open>for x in obj\<close>: the elements of a list, the characters of a string, the keys of a dict.\<close>

fun iterate :: "pyval \<Rightarrow> exn + pyval list" where
  "iterate (PList xs) = Inr xs"
| "iterate (PStr s) = Inr (map (\<lambda>c. PStr [c]) s)"
| "iterate (PDict kvs) = Inr (map PStr (fromkeys (map fst kvs)))"
| "iterate v = Inl (Exn TypeError [])"

text \<open>
  \<open>SocketAddress.parse\<close> belongs to the module \<open>.addressing\<close>, which is not among the
  sources: it is the parameter \<open>parse\<close> of the functions below.
\<close>

fun parse_addresses :: "(pyval \<Rightarrow> exn + address) \<Rightarrow> pyval list \<Rightarrow> exn + address list" where
  "parse_addresses parse [] = Inr []"
| "parse_addresses parse (a # as) =
     (case parse a of
        Inl e \<Rightarrow> Inl e
      | Inr x \<Rightarrow> (case parse_addresses parse as of Inl e \<Rightarrow> Inl e | Inr xs \<Rightarrow> Inr (x # xs)))"

text \<open>The loop \<open>for server in servers\<close>; the accumulator is (routers, readers, writers).\<close>

fun parse_servers ::
  "(pyval \<Rightarrow> exn + address) \<Rightarrow> pyval list \<Rightarrow> address list \<times> address list \<times> address list
   \<Rightarrow> exn + address list \<times> address list \<times> address list"
where
  "parse_servers parse [] acc = Inr acc"
| "parse_servers parse (server # rest) (ro, re, wr) =
     (case subscript server ''role'' of
        Inl e \<Rightarrow> Inl e
      | Inr role \<Rightarrow>
          (case subscript server ''addresses'' of
             Inl e \<Rightarrow> Inl e
           | Inr av \<Rightarrow>
               (case iterate av of
                  Inl e \<Rightarrow> Inl e
                | Inr avs \<Rightarrow>
                    (case parse_addresses parse avs of
                       Inl e \<Rightarrow> Inl e
                     | Inr addresses \<Rightarrow>
                         if role = PStr ''ROUTE'' then parse_servers parse rest (ro @ addresses, re, wr)
                         else if role = PStr ''READ'' then parse_servers parse rest (ro, re @ addresses, wr)
                         else if role = PStr ''WRITE'' then parse_servers parse rest (ro, re, wr @ addresses)
                         else parse_servers parse rest (ro, re, wr)))))"

text \<open>The body of the \<open>try\<close> block: the three address lists and the ttl value.\<close>

definition parse_record ::
  "(pyval \<Rightarrow> exn + address) \<Rightarrow> pyval
   \<Rightarrow> exn + (address list \<times> address list \<times> address list) \<times> pyval"
where
  "parse_record parse record =
     (case subscript record ''servers'' of
        Inl e \<Rightarrow> Inl e
      | Inr servers \<Rightarrow>
          (case iterate servers of
             Inl e \<Rightarrow> Inl e
           | Inr svs \<Rightarrow>
               (case parse_servers parse svs ([], [], []) of
                  Inl e \<Rightarrow> Inl e
                | Inr triple \<Rightarrow>
                    (case subscript record ''ttl'' of
                       Inl e \<Rightarrow> Inl e
                     | Inr t \<Rightarrow> Inr (triple, t)))))"

definition parse_routing_info ::
  "(pyval \<Rightarrow> exn + address) \<Rightarrow> pyfloat \<Rightarrow> pyval list \<Rightarrow> heap \<Rightarrow> (exn + RoutingTable) \<times> heap"
where
  "parse_routing_info parse now records h =
     (if length records \<noteq> 1 then (Inl (Exn RoutingProtocolError ''Expected exactly one record''), h)
      else
        (case parse_record parse (records ! 0) of
           Inl e \<Rightarrow>
             if isinstance e KeyError \<or> isinstance e TypeError
             then (Inl (Exn RoutingProtocolError ''Cannot parse routing info''), h)
             else (Inl e, h)
         | Inr ((ro, re, wr), t) \<Rightarrow>
             (let (table, h') = RoutingTable_init ro re wr t now h in (Inr table, h'))))"

text \<open>
  The value of an \<open>and\<close> chain is the operand that decides it: \<open>is_fresh\<close> returns a
  \<open>bool\<close>, or the (empty) routers set itself.
\<close>

datatype pyresult = PyBool bool | PySet "address list"

fun truthy :: "pyresult \<Rightarrow> bool" where
  "truthy (PyBool b) = b"
| "truthy (PySet xs) = (xs \<noteq> [])"

text \<open>
  \<open>self.last_updated_time + self.ttl\<close>: a float plus the stored ttl value. An \<open>int\<close> (a
  \<open>bool\<close> is one) is converted to a double first; any other value is a \<open>TypeError\<close>.
\<close>

fun float_add :: "pyfloat \<Rightarrow> pyval \<Rightarrow> exn + pyfloat" where
  "float_add x (PInt i) =
     (case int_to_double i of Inl e \<Rightarrow> Inl e | Inr y \<Rightarrow> Inr (double_add x y))"
| "float_add x (PBool b) =
     (case int_to_double (if b then 1 else 0) of Inl e \<Rightarrow> Inl e | Inr y \<Rightarrow> Inr (double_add x y))"
| "float_add x v = Inl (Exn TypeError [])"

definition is_fresh :: "heap \<Rightarrow> RoutingTable \<Rightarrow> string \<Rightarrow> pyfloat \<Rightarrow> exn + pyresult" where
  "is_fresh h self access_mode now =
     (case float_add (last_updated_time self) (ttl self) of
        Inl e \<Rightarrow> Inl e
      | Inr deadline \<Rightarrow>
          (let expired = double_le deadline now;
               has_server_for_mode =
                 ((access_mode = READ_ACCESS \<and> cells h (readers self) \<noteq> [])
                  \<or> (access_mode = WRITE_ACCESS \<and> cells h (writers self) \<noteq> []))
           in Inr (if expired then PyBool False
                   else if cells h (routers self) = [] then PySet (cells h (routers self))
                   else PyBool has_server_for_mode)))"

definition RoutingTable_update ::
  "RoutingTable \<Rightarrow> RoutingTable \<Rightarrow> pyfloat \<Rightarrow> heap \<Rightarrow> RoutingTable \<times> heap"
where
  "RoutingTable_update self new_routing_table now h =
     (let h1 = OrderedSet_replace (routers self) (routers new_routing_table) h;
          h2 = OrderedSet_replace (readers self) (readers new_routing_table) h1;
          h3 = OrderedSet_replace (writers self) (writers new_routing_table) h2
      in (self\<lparr>last_updated_time := now, ttl := ttl new_routing_table\<rparr>, h3))"

definition servers :: "heap \<Rightarrow> RoutingTable \<Rightarrow> address set" where
  "servers h self = set (cells h (routers self)) \<union> set (cells h (writers self)) \<union> set (cells h (readers self))"

section \<open>LeastConnectedLoadBalancingStrategy\<close>

record LeastConnectedLoadBalancingStrategy =
  readers_offset :: int
  writers_offset :: int

text \<open>\<open>offset % num_addresses\<close> on Python integers, for a positive length.\<close>

definition start_index_of :: "int \<Rightarrow> nat \<Rightarrow> nat" where
  "start_index_of offset num_addresses = nat (offset mod int num_addresses)"

text \<open>
  The \<open>while True\<close> loop of \<open>_select\<close>. Its arguments are the locals of the method;
  \<open>num_addresses\<close> and \<open>start_index\<close> never change and are computed from \<open>addresses\<close> and
  \<open>offset\<close>. \<open>in_use\<close> is \<open>self._connection_pool.in_use_connection_count\<close>, and
  \<open>addresses[index]\<close> raises \<open>IndexError\<close> outside the list.
\<close>

function select_loop ::
  "(address \<Rightarrow> int) \<Rightarrow> address list \<Rightarrow> int \<Rightarrow> nat \<Rightarrow> address option \<Rightarrow> int \<Rightarrow> exn + address option"
where
  "select_loop in_use addresses offset index least_connected_address least_in_use_connections =
     (let num_addresses = length addresses;
          start_index = start_index_of offset num_addresses
      in if index < num_addresses then
           (let address = addresses ! index;
                index' = (index + 1) mod num_addresses;
                in_use_connections = in_use address;
                least_connected_address' =
                  (if in_use_connections < least_in_use_connections then Some address
                   else least_connected_address);
                least_in_use_connections' =
                  (if in_use_connections < least_in_use_connections then in_use_connections
                   else least_in_use_connections)
            in if index' = start_index then Inr least_connected_address'
               else select_loop in_use addresses offset index'
                      least_connected_address' least_in_use_connections')
         else Inl (Exn IndexError ''list index out of range''))"
  by pat_completeness auto
termination
proof (relation "measure (\<lambda>(in_use, addresses, offset, index, la, lc).
         (start_index_of offset (length addresses) + length addresses - 1 - index)
           mod length addresses)", goal_cases)
  case 1
  show ?case by simp
next
  case (2 in_use addresses offset index la lc num start)
  define n where "n = length addresses"
  define s where "s = start_index_of offset n"
  define i where "i = index"
  have i: "i < n" using 2 by (simp add: n_def i_def)
  then have "0 < n" by simp
  then have s: "s < n" by (simp add: s_def start_index_of_def nat_less_iff)
  have ne: "Suc i mod n \<noteq> s" using 2 by (simp add: n_def s_def i_def)
  have between: "x mod n = x - n" if "n \<le> x" "x < 2 * n" for x
  proof -
    have "x = (x - n) + n" using that by simp
    then have "x mod n = (x - n) mod n" by (metis mod_add_self2)
    also have "\<dots> = x - n" using that by simp
    finally show ?thesis .
  qed
  have "(s + n - Suc (Suc i mod n)) mod n < (s + n - Suc i) mod n"
  proof (cases "Suc i = n")
    case True
    with ne have "s \<noteq> 0" by auto
    then have "(s + n - Suc 0) mod n = s + n - Suc 0 - n"
      using s by (intro between) simp_all
    moreover have "(s + n - Suc i) mod n = s" using True s by simp
    ultimately show ?thesis using True \<open>s \<noteq> 0\<close> by simp
  next
    case False
    with i have lt: "Suc i < n" by simp
    then have m: "Suc i mod n = Suc i" by simp
    with ne have ne': "Suc i \<noteq> s" by simp
    show ?thesis
    proof (cases "s < Suc i")
      case True
      then have "(s + n - Suc (Suc i)) mod n = s + n - Suc (Suc i)"
        and "(s + n - Suc i) mod n = s + n - Suc i" using lt by simp_all
      then show ?thesis using m lt True by simp
    next
      case False
      with ne' have gt: "Suc i < s" by simp
      then have "(s + n - Suc (Suc i)) mod n = s + n - Suc (Suc i) - n"
        using s by (intro between) simp_all
      moreover have "(s + n - Suc i) mod n = s + n - Suc i - n"
        using s gt by (intro between) simp_all
      ultimately show ?thesis using m gt by simp
    qed
  qed
  then show ?case using 2 by (simp add: n_def s_def i_def)
qed

text \<open>The equation of the loop is unfolded by hand, one iteration at a time.\<close>

declare select_loop.simps [simp del]

text \<open>
  What one iteration of the loop does to the pair of \<open>least_connected_address\<close> and
  \<open>least_in_use_connections\<close> when it visits the address \<open>a\<close>.
\<close>

definition visit_step ::
  "(address \<Rightarrow> int) \<Rightarrow> address \<Rightarrow> address option \<times> int \<Rightarrow> address option \<times> int"
where
  "visit_step in_use a acc = (if in_use a < snd acc then (Some a, in_use a) else acc)"

definition select :: "(address \<Rightarrow> int) \<Rightarrow> int \<Rightarrow> address list \<Rightarrow> exn + address option" where
  "select in_use offset addresses =
     (if addresses = [] then Inr None
      else select_loop in_use addresses offset
             (start_index_of offset (length addresses)) None maxsize)"

text \<open>
  \<open>known_readers\<close> is the content of the set object at the time of the call. The offset is
  incremented after \<open>_select\<close> has returned.
\<close>

definition select_reader ::
  "(address \<Rightarrow> int) \<Rightarrow> address list \<Rightarrow> LeastConnectedLoadBalancingStrategy
   \<Rightarrow> (exn + address option) \<times> LeastConnectedLoadBalancingStrategy"
where
  "select_reader in_use known_readers self =
     (case select in_use (readers_offset self) known_readers of
        Inl e \<Rightarrow> (Inl e, self)
      | Inr address \<Rightarrow> (Inr address, self\<lparr>readers_offset := readers_offset self + 1\<rparr>))"

definition select_writer ::
  "(address \<Rightarrow> int) \<Rightarrow> address list \<Rightarrow> LeastConnectedLoadBalancingStrategy
   \<Rightarrow> (exn + address option) \<times> LeastConnectedLoadBalancingStrategy"
where
  "select_writer in_use known_writers self =
     (case select in_use (writers_offset self) known_writers of
        Inl e \<Rightarrow> (Inl e, self)
      | Inr address \<Rightarrow> (Inr address, self\<lparr>writers_offset := writers_offset self + 1\<rparr>))"

section \<open>RoutingConnectionPool\<close>

text \<open>
  A connection handed out by the direct pool: the address it goes to and the class bound
  to its \<open>Error\<close> attribute.
\<close>

record connection =
  conn_address :: address
  conn_Error :: error_class

text \<open>
  What happens inside the \<open>with self.acquire_direct(address) as cx\<close> block of
  \<open>fetch_routing_info\<close>: the records are pulled, or the server answers with a failure whose
  metadata carries a code (the callback \<open>fail\<close> is called), or an exception is raised.
\<close>

datatype reply =
    Records "pyval list"
  | Failure "string option"
  | Raised exn

text \<open>
  The world outside the routing layer. The direct pool (\<open>AbstractConnectionPool\<close>), the
  wire protocol and the clock are not among the sources; each is a function of what the
  routing layer has asked of it so far:
  \<^item> \<open>timer n\<close> is the value of the \<open>n\<close>-th call of \<open>perf_counter\<close>;
  \<open>parse_address\<close> is \<open>SocketAddress.parse\<close> with the default port, \<open>repr_address\<close> the
  \<open>repr\<close> of an address;
  \<^item> \<open>routing_reply\<close> takes the routers contacted so far and the router asked now;
  \<^item> \<open>acquire_direct\<close> and \<open>in_use_connection_count\<close> take the addresses passed to
  \<open>acquire_direct\<close> by \<open>acquire\<close> so far;
  \<^item> \<open>connections\<close> (the addresses known to the direct pool) takes those and the addresses
  the direct pool was told to deactivate.
\<close>

record env =
  timer :: "nat \<Rightarrow> pyfloat"
  parse_address :: "pyval \<Rightarrow> exn + address"
  repr_address :: "address \<Rightarrow> string"
  routing_reply :: "address list \<Rightarrow> address \<Rightarrow> reply"
  acquire_direct :: "address list \<Rightarrow> address \<Rightarrow> exn + connection"
  in_use_connection_count :: "address list \<Rightarrow> address \<Rightarrow> int"
  connections :: "address list \<Rightarrow> address list \<Rightarrow> address list"

text \<open>
  The pool. \<open>clock\<close> counts the reads of the timer; \<open>contacted\<close>, \<open>acquired\<close> and
  \<open>deactivated\<close> log the calls of \<open>fetch_routing_info\<close>, of \<open>acquire_direct\<close> (by
  \<open>acquire\<close>) and of \<open>AbstractConnectionPool.deactivate\<close>. The refresh lock is not
  modelled: one thread runs.
\<close>

record pool =
  store :: heap
  routing_table :: RoutingTable
  initial_address :: address
  missing_writer :: bool
  load_balancing_strategy :: LeastConnectedLoadBalancingStrategy
  clock :: nat
  contacted :: "address list"
  acquired :: "address list"
  deactivated :: "address list"

definition RoutingConnectionPool_init :: "env \<Rightarrow> address \<Rightarrow> address list \<Rightarrow> pool" where
  "RoutingConnectionPool_init w initial routers0 =
     (let (table, h) = RoutingTable_init routers0 [] [] (PInt 0) (timer w 0)
                         \<lparr>cells = (\<lambda>r. []), fresh = 0\<rparr>
      in \<lparr>store = h, routing_table = table, initial_address = initial, missing_writer = False,
          load_balancing_strategy = \<lparr>readers_offset = 0, writers_offset = 0\<rparr>,
          clock = 1, contacted = [], acquired = [], deactivated = []\<rparr>)"

definition deactivate :: "address \<Rightarrow> pool \<Rightarrow> pool" where
  "deactivate address s =
     (let h1 = OrderedSet_discard (routers (routing_table s)) address (store s);
          h2 = OrderedSet_discard (readers (routing_table s)) address h1;
          h3 = OrderedSet_discard (writers (routing_table s)) address h2
      in s\<lparr>store := h3, deactivated := deactivated s @ [address]\<rparr>)"

definition remove_writer :: "address \<Rightarrow> pool \<Rightarrow> pool" where
  "remove_writer address s =
     s\<lparr>store := OrderedSet_discard (writers (routing_table s)) address (store s)\<rparr>"

text \<open>The local function \<open>fail\<close> of \<open>fetch_routing_info\<close>: the exception it raises.\<close>

definition fail :: "env \<Rightarrow> address \<Rightarrow> string option \<Rightarrow> exn" where
  "fail w address code =
     (if code = Some ''Neo.ClientError.Procedure.ProcedureNotFound''
      then Exn RoutingProtocolError (''Server '' @ repr_address w address @ '' does not support routing'')
      else Exn RoutingProtocolError (''Routing support broken on server '' @ repr_address w address))"

definition fetch_routing_info :: "env \<Rightarrow> address \<Rightarrow> pool \<Rightarrow> (exn + pyval list option) \<times> pool" where
  "fetch_routing_info w address s =
     (let s1 = s\<lparr>contacted := contacted s @ [address]\<rparr>;
          outcome = (case routing_reply w (contacted s) address of
                       Records routing_info \<Rightarrow> Inr routing_info
                     | Failure code \<Rightarrow> Inl (fail w address code)
                     | Raised e \<Rightarrow> Inl e)
      in case outcome of
           Inr routing_info \<Rightarrow> (Inr (Some routing_info), s1)
         | Inl error \<Rightarrow>
             if isinstance error RoutingProtocolError
             then (Inl (Exn ServiceUnavailable (args error)), s1)
             else if isinstance error ServiceUnavailable
             then (Inr None, deactivate address s1)
             else (Inl error, s1))"

definition fetch_routing_table :: "env \<Rightarrow> address \<Rightarrow> pool \<Rightarrow> (exn + RoutingTable option) \<times> pool" where
  "fetch_routing_table w address s =
     (case fetch_routing_info w address s of
        (Inl e, s1) \<Rightarrow> (Inl e, s1)
      | (Inr None, s1) \<Rightarrow> (Inr None, s1)
      | (Inr (Some new_routing_info), s1) \<Rightarrow>
          (case parse_routing_info (parse_address w) (timer w (clock s1)) new_routing_info (store s1) of
             (Inl e, h) \<Rightarrow> (Inl e, s1\<lparr>store := h\<rparr>)
           | (Inr new_routing_table, h) \<Rightarrow>
               (let num_routers = OrderedSet_len h (routers new_routing_table);
                    num_readers = OrderedSet_len h (readers new_routing_table);
                    num_writers = OrderedSet_len h (writers new_routing_table);
                    s2 = s1\<lparr>store := h, clock := Suc (clock s1),
                            missing_writer := (num_writers = 0)\<rparr>
                in if num_routers = 0
                   then (Inl (Exn RoutingProtocolError
                           (''No routing servers returned from server '' @ repr_address w address)), s2)
                   else if num_readers = 0
                   then (Inl (Exn RoutingProtocolError
                           (''No read servers returned from server '' @ repr_address w address)), s2)
                   else (Inr (Some new_routing_table), s2))))"

fun update_routing_table_from :: "env \<Rightarrow> address list \<Rightarrow> pool \<Rightarrow> (exn + bool) \<times> pool" where
  "update_routing_table_from w [] s = (Inr False, s)"
| "update_routing_table_from w (router # rest) s =
     (case fetch_routing_table w router s of
        (Inl e, s1) \<Rightarrow> (Inl e, s1)
      | (Inr None, s1) \<Rightarrow> update_routing_table_from w rest s1
      | (Inr (Some new_routing_table), s1) \<Rightarrow>
          (let (table, h) = RoutingTable_update (routing_table s1) new_routing_table
                              (timer w (clock s1)) (store s1)
           in (Inr True, s1\<lparr>store := h, routing_table := table, clock := Suc (clock s1)\<rparr>)))"

definition update_routing_table :: "env \<Rightarrow> pool \<Rightarrow> (exn + unit) \<times> pool" where
  "update_routing_table w s =
     (let existing_routers = OrderedSet_iter (store s) (routers (routing_table s));
          has_tried_initial_routers = missing_writer s
      in case (if missing_writer s then update_routing_table_from w [initial_address s] s
               else (Inr False, s)) of
           (Inl e, s1) \<Rightarrow> (Inl e, s1)
         | (Inr True, s1) \<Rightarrow> (Inr (), s1)
         | (Inr False, s1) \<Rightarrow>
             (case update_routing_table_from w existing_routers s1 of
                (Inl e, s2) \<Rightarrow> (Inl e, s2)
              | (Inr True, s2) \<Rightarrow> (Inr (), s2)
              | (Inr False, s2) \<Rightarrow>
                  (case (if \<not> has_tried_initial_routers \<and> initial_address s2 \<notin> set existing_routers
                         then update_routing_table_from w [initial_address s2] s2
                         else (Inr False, s2)) of
                     (Inl e, s3) \<Rightarrow> (Inl e, s3)
                   | (Inr True, s3) \<Rightarrow> (Inr (), s3)
                   | (Inr False, s3) \<Rightarrow>
                       (Inl (Exn ServiceUnavailable ''Unable to retrieve routing information''), s3))))"

definition update_connection_pool :: "env \<Rightarrow> pool \<Rightarrow> pool" where
  "update_connection_pool w s =
     (let known = servers (store s) (routing_table s)
      in s\<lparr>deactivated := deactivated s
             @ filter (\<lambda>address. address \<notin> known) (connections w (acquired s) (deactivated s))\<rparr>)"

text \<open>
  \<open>self.routing_table.is_fresh(access_mode)\<close>, with the read of the timer it makes. The
  sum \<open>last_updated_time + ttl\<close> is computed before the timer is read, so a call that
  raises has not read the timer.
\<close>

definition routing_table_is_fresh :: "env \<Rightarrow> string \<Rightarrow> pool \<Rightarrow> (exn + pyresult) \<times> pool" where
  "routing_table_is_fresh w access_mode s =
     (case is_fresh (store s) (routing_table s) access_mode (timer w (clock s)) of
        Inl e \<Rightarrow> (Inl e, s)
      | Inr f \<Rightarrow> (Inr f, s\<lparr>clock := Suc (clock s)\<rparr>))"

definition ensure_routing_table_is_fresh :: "env \<Rightarrow> string \<Rightarrow> pool \<Rightarrow> (exn + bool) \<times> pool" where
  "ensure_routing_table_is_fresh w access_mode s =
     (case routing_table_is_fresh w access_mode s of
        (Inl e, s1) \<Rightarrow> (Inl e, s1)
      | (Inr f1, s1) \<Rightarrow>
          if truthy f1 then (Inr False, s1)
          else
            (case routing_table_is_fresh w access_mode s1 of
               (Inl e, s2) \<Rightarrow> (Inl e, s2)
             | (Inr f2, s2) \<Rightarrow>
                 if truthy f2 then
                   (if access_mode = READ_ACCESS then
                      (case routing_table_is_fresh w WRITE_ACCESS s2 of
                         (Inl e, s3) \<Rightarrow> (Inl e, s3)
                       | (Inr f3, s3) \<Rightarrow> (Inr False, s3\<lparr>missing_writer := \<not> truthy f3\<rparr>))
                    else (Inr False, s2))
                 else
                   (case update_routing_table w s2 of
                      (Inl e, s3) \<Rightarrow> (Inl e, s3)
                    | (Inr u, s3) \<Rightarrow> (Inr True, update_connection_pool w s3))))"

text \<open>
  The \<open>while True\<close> loop of \<open>acquire\<close>. \<open>server_list\<close> is the set object captured before the
  loop, \<open>server_selector\<close> the bound method. The loop need not end for every argument
  (a \<open>server_list\<close> that is no set of the routing table never shrinks), so the result is
  an option, \<open>None\<close> standing for a loop that does not return.
\<close>

partial_function (option) acquire_loop ::
  "env \<Rightarrow> string \<Rightarrow> ref
   \<Rightarrow> ((address \<Rightarrow> int) \<Rightarrow> address list \<Rightarrow> LeastConnectedLoadBalancingStrategy
        \<Rightarrow> (exn + address option) \<times> LeastConnectedLoadBalancingStrategy)
   \<Rightarrow> pool \<Rightarrow> ((exn + connection) \<times> pool) option"
where
  "acquire_loop w access_mode server_list server_selector s =
     (case server_selector (in_use_connection_count w (acquired s)) (cells (store s) server_list)
             (load_balancing_strategy s) of
        (Inl e, lb) \<Rightarrow> Some (Inl e, s\<lparr>load_balancing_strategy := lb\<rparr>)
      | (Inr None, lb) \<Rightarrow>
          Some (Inl (Exn ConnectionExpired
                  (''Failed to obtain connection towards '' @ [CHR 0x27] @ access_mode @ [CHR 0x27] @ '' server.'')),
                s\<lparr>load_balancing_strategy := lb\<rparr>)
      | (Inr (Some address), lb) \<Rightarrow>
          (let s1 = s\<lparr>load_balancing_strategy := lb, acquired := acquired s @ [address]\<rparr>
           in case acquire_direct w (acquired s) address of
                Inr connection \<Rightarrow> Some (Inr (connection\<lparr>conn_Error := ConnectionExpired\<rparr>), s1)
              | Inl e \<Rightarrow>
                  if isinstance e ServiceUnavailable
                  then acquire_loop w access_mode server_list server_selector (deactivate address s1)
                  else Some (Inl e, s1)))"

definition acquire :: "env \<Rightarrow> string option \<Rightarrow> pool \<Rightarrow> ((exn + connection) \<times> pool) option" where
  "acquire w access_mode0 s =
     (let access_mode = (case access_mode0 of None \<Rightarrow> WRITE_ACCESS | Some m \<Rightarrow> m)
      in if access_mode = READ_ACCESS then
           (let server_list = readers (routing_table s)
            in case ensure_routing_table_is_fresh w access_mode s of
                 (Inl e, s1) \<Rightarrow> Some (Inl e, s1)
               | (Inr u, s1) \<Rightarrow> acquire_loop w access_mode server_list select_reader s1)
         else if access_mode = WRITE_ACCESS then
           (let server_list = writers (routing_table s)
            in case ensure_routing_table_is_fresh w access_mode s of
                 (Inl e, s1) \<Rightarrow> Some (Inl e, s1)
               | (Inr u, s1) \<Rightarrow> acquire_loop w access_mode server_list select_writer s1)
         else Some (Inl (Exn ValueError (''Unsupported access mode '' @ access_mode)), s))"

definition handle :: "exn \<Rightarrow> connection \<Rightarrow> pool \<Rightarrow> pool" where
  "handle error connection s =
     (let error_class = error_class_of error
      in if error_class \<in> set [ConnectionExpired, ServiceUnavailable, DatabaseUnavailableError]
         then deactivate (conn_address connection) s
         else if error_class \<in> set [NotALeaderError, ForbiddenOnReadOnlyDatabaseError]
         then remove_writer (conn_address connection) s
         else s)"

section \<open>Descriptions used by the statements\<close>

text \<open>The three set objects a routing table refers to.\<close>

definition set_objects :: "RoutingTable \<Rightarrow> ref \<times> ref \<times> ref" where
  "set_objects t = (routers t, readers t, writers t)"

text \<open>
  The order of the router candidates of a refresh, as the specification words it: the
  initial address first when \<open>missing_writer\<close> is set, then the addresses of the routers
  set as it is before the attempt, in insertion order, then the initial address if it
  was neither tried first nor among those routers.
\<close>

definition router_candidates :: "pool \<Rightarrow> address list" where
  "router_candidates s =
     (let existing = cells (store s) (routers (routing_table s))
      in (if missing_writer s then [initial_address s] else [])
         @ existing
         @ (if \<not> missing_writer s \<and> initial_address s \<notin> set existing
            then [initial_address s] else []))"

text \<open>
  What the world answers when the router \<open>a\<close> is asked after the routers of \<open>history\<close>:
  \<open>unreachable\<close> when the exchange raises \<open>ServiceUnavailable\<close> (so that
  \<open>fetch_routing_info\<close> returns \<open>None\<close>), \<open>usable\<close> when it delivers one record that
  parses into a table with at least one router and one reader.
\<close>

definition unreachable :: "env \<Rightarrow> address list \<Rightarrow> address \<Rightarrow> bool" where
  "unreachable w history a =
     (case routing_reply w history a of
        Raised e \<Rightarrow> \<not> isinstance e RoutingProtocolError \<and> isinstance e ServiceUnavailable
      | _ \<Rightarrow> False)"

definition usable :: "env \<Rightarrow> address list \<Rightarrow> address \<Rightarrow> bool" where
  "usable w history a =
     (case routing_reply w history a of
        Records info \<Rightarrow>
          length info = 1 \<and>
          (case parse_record (parse_address w) (info ! 0) of
             Inr ((ro, re, wr), t) \<Rightarrow> ro \<noteq> [] \<and> re \<noteq> []
           | Inl e \<Rightarrow> False)
      | _ \<Rightarrow> False)"

section \<open>Set objects: basic facts\<close>

lemma discard_cells:
  "cells (OrderedSet_discard r a h) r' = (if r' = r then removeAll a (cells h r) else cells h r')"
  by (simp add: OrderedSet_discard_def)

lemma discard_fresh: "fresh (OrderedSet_discard r a h) = fresh h"
  by (simp add: OrderedSet_discard_def)

lemma discard_absent: "a \<notin> set (cells h r) \<Longrightarrow> OrderedSet_discard r a h = h"
  by (simp add: OrderedSet_discard_def)


text \<open>The definitions that evaluate the model on a concrete input.\<close>

lemmas run_defs =
  Let_def RoutingConnectionPool_init_def RoutingTable_init_def OrderedSet_init_def
  fromkeys_def dict_update_def setitem_def fetch_routing_table_def fetch_routing_info_def
  parse_routing_info_def parse_record_def OrderedSet_len_def isinstance_def
  deactivate_def OrderedSet_discard_def fail_def

section \<open>Python floats: rounding\<close>

lemma round53_result:
  fixes x :: int
  defines "s \<equiv> nat (bitlen \<bar>x\<bar> - 53)"
  shows "\<exists>q'. (q' = x div 2 ^ s \<or> (q' = x div 2 ^ s + 1 \<and> x mod 2 ^ s \<noteq> 0))
           \<and> round53 x = (if 2 ^ 2098 \<le> q' * 2 ^ s then PosInf
                           else if q' * 2 ^ s \<le> - (2 ^ 2098) then NegInf
                           else Finite (q' * 2 ^ s))"
proof -
  define q where "q = x div 2 ^ s"
  define r where "r = x mod 2 ^ s"
  define q' where "q' = (if 2 * r < 2 ^ s then q
                else if 2 ^ s < 2 * r then q + 1
                else if even q then q else q + 1)"
  have r: "r = 0 \<Longrightarrow> q' = q" by (simp add: q'_def)
  have "q' = q \<or> (q' = q + 1 \<and> r \<noteq> 0)"
    using r by (auto simp add: q'_def)
  moreover have "round53 x = (if 2 ^ 2098 \<le> q' * 2 ^ s then PosInf
                           else if q' * 2 ^ s \<le> - (2 ^ 2098) then NegInf
                           else Finite (q' * 2 ^ s))"
    unfolding round53_def Let_def s_def [symmetric] q_def [symmetric] r_def [symmetric]
      q'_def [symmetric] by (rule refl)
  ultimately show ?thesis unfolding q_def r_def by blast
qed








lemma round53_exact:
  assumes "\<bar>k\<bar> < 2 ^ 53" and "\<bar>k * 2 ^ j\<bar> < 2 ^ 2098"
  shows "round53 (k * 2 ^ j) = Finite (k * 2 ^ j)"
proof -
  define x where "x = k * 2 ^ j"
  define s where "s = nat (bitlen \<bar>x\<bar> - 53)"
  have "s \<le> j"
  proof (cases "k = 0")
    case True
    then show ?thesis by (simp add: s_def x_def)
  next
    case False
    then have "0 < \<bar>k\<bar>" by simp
    then have "bitlen \<bar>x\<bar> = bitlen \<bar>k\<bar> + int j"
      by (simp add: x_def abs_mult)
    moreover have "bitlen \<bar>k\<bar> \<le> 53"
      using assms(1) bitlen_le_iff_power [of "\<bar>k\<bar>" 53] by simp
    ultimately show ?thesis by (simp add: s_def)
  qed
  then obtain d where "j = d + s" by (metis le_add_diff_inverse2)
  then have x: "x = (k * 2 ^ d) * 2 ^ s" by (simp add: x_def power_add)
  then have m: "x mod 2 ^ s = 0" by simp
  from x have q: "x div 2 ^ s = k * 2 ^ d" by simp
  from round53_result [of x] m q x have "round53 x = (if 2 ^ 2098 \<le> x then PosInf
                           else if x \<le> - (2 ^ 2098) then NegInf else Finite x)"
    unfolding s_def [symmetric] by auto
  then show ?thesis using assms(2) unfolding x_def by auto
qed


lemma seconds_exact: "\<bar>k\<bar> < 2 ^ 53 \<Longrightarrow> round53 (k * 2 ^ 1074) = Finite (k * 2 ^ 1074)"
proof (rule round53_exact)
  assume k: "\<bar>k\<bar> < 2 ^ 53"
  then show "\<bar>k\<bar> < 2 ^ 53" .
  from k have "\<bar>k\<bar> * 2 ^ 1074 < 2 ^ 53 * (2 ^ 1074 :: int)"
    by (intro mult_strict_right_mono) (simp_all del: power_numeral)
  moreover have "(2 ^ 53 * 2 ^ 1074 :: int) \<le> 2 ^ 2098"
    unfolding power_add [symmetric] by (intro power_increasing) simp_all
  moreover have "\<bar>k * 2 ^ 1074\<bar> = \<bar>k\<bar> * (2 ^ 1074 :: int)"
    unfolding abs_mult by (simp del: power_numeral)
  ultimately show "\<bar>k * 2 ^ 1074\<bar> < (2 ^ 2098 :: int)" by linarith
qed

lemma valid_double_seconds: "\<bar>k\<bar> < 2 ^ 53 \<Longrightarrow> valid_double (seconds k)"
  unfolding seconds_def valid_double.simps by (rule seconds_exact)

lemma scaled_seconds: "scaled (seconds k) = k * 2 ^ 1074"
  unfolding seconds_def scaled.simps by (rule refl)

lemma double_le_seconds: "double_le (seconds a) (seconds b) \<longleftrightarrow> a \<le> b"
  unfolding seconds_def double_le.simps by (simp del: power_numeral)

lemma int_to_double_small: "\<bar>k\<bar> < 2 ^ 53 \<Longrightarrow> int_to_double k = Inr (seconds k)"
  unfolding int_to_double_def seconds_def by (simp only: seconds_exact pyfloat.case)

lemma double_add_seconds:
  "\<bar>a + b\<bar> < 2 ^ 53 \<Longrightarrow> double_add (seconds a) (seconds b) = seconds (a + b)"
  unfolding seconds_def double_add.simps distrib_right [symmetric] by (rule seconds_exact)

text \<open>The facts that evaluate float arithmetic on whole numbers of seconds.\<close>

lemmas float_run =
  int_to_double_small double_add_seconds double_le_seconds scaled_seconds valid_double_seconds

section \<open>Parsing routing information\<close>














section \<open>Freshness after parsing\<close>








section \<open>Fetching one routing table\<close>

lemma fetch_routing_table_parsed:
  assumes "fetch_routing_info w address s = (Inr (Some info), s1)"
      and "parse_routing_info (parse_address w) (timer w (clock s1)) info (store s1) = (Inr t, h)"
  shows "fetch_routing_table w address s =
           (let s2 = s1\<lparr>store := h, clock := Suc (clock s1),
                        missing_writer := (cells h (writers t) = [])\<rparr>
            in if cells h (routers t) = []
               then (Inl (Exn RoutingProtocolError
                       (''No routing servers returned from server '' @ repr_address w address)), s2)
               else if cells h (readers t) = []
               then (Inl (Exn RoutingProtocolError
                       (''No read servers returned from server '' @ repr_address w address)), s2)
               else (Inr (Some t), s2))"
  using assms by (simp add: fetch_routing_table_def OrderedSet_len_def Let_def)

text \<open>
  Claim C4. When the routing information of a router parses into a candidate table,
  \<open>fetch_routing_table\<close> raises \<open>RoutingProtocolError\<close> if the candidate has no router or
  no reader, and returns the candidate otherwise, whether or not it has a writer; in all
  these cases the flag \<open>missing_writer\<close> of the pool ends up equal to "the candidate has
  no writer".
\<close>

theorem fetch_routing_table_validation:
  assumes "fetch_routing_info w address s = (Inr (Some info), s1)"
      and "parse_routing_info (parse_address w) (timer w (clock s1)) info (store s1) = (Inr t, h)"
  shows "(cells h (routers t) = [] \<or> cells h (readers t) = []
            \<longrightarrow> isl (fst (fetch_routing_table w address s))
                \<and> error_class_of (projl (fst (fetch_routing_table w address s)))
                    = RoutingProtocolError)
       \<and> (cells h (routers t) \<noteq> [] \<and> cells h (readers t) \<noteq> []
            \<longrightarrow> fst (fetch_routing_table w address s) = Inr (Some t))
       \<and> missing_writer (snd (fetch_routing_table w address s)) = (cells h (writers t) = [])"
  by (simp add: fetch_routing_table_parsed [OF assms] Let_def)

theorem fetch_routing_table_validation_witness:
  "(let good = [PDict [(''ttl'', PInt 300),
                       (''servers'', PList
                          [PDict [(''role'', PStr ''ROUTE''), (''addresses'', PList [PStr ''core1''])],
                           PDict [(''role'', PStr ''READ''), (''addresses'', PList [PStr ''core2''])]])]];
        bad = [PDict [(''ttl'', PInt 300),
                      (''servers'', PList
                          [PDict [(''role'', PStr ''ROUTE''), (''addresses'', PList [PStr ''core1''])],
                           PDict [(''role'', PStr ''WRITE''), (''addresses'', PList [PStr ''core1''])]])]];
        w = \<lparr>timer = (\<lambda>n. seconds (int n)),
             parse_address = (\<lambda>v. case v of PStr s \<Rightarrow> Inr (s, 7687) | _ \<Rightarrow> Inl (Exn TypeError [])),
             repr_address = fst,
             routing_reply = (\<lambda>log a. Records (if a = (''core1'', 7687) then good else bad)),
             acquire_direct = (\<lambda>log a. Inl (Exn ServiceUnavailable [])),
             in_use_connection_count = (\<lambda>log a. 0),
             connections = (\<lambda>log1 log2. [])\<rparr>;
        s = RoutingConnectionPool_init w (''core1'', 7687) [(''core1'', 7687), (''core9'', 7687)];
        t = \<lparr>routers = 3, readers = 4, writers = 5, last_updated_time = seconds 1, ttl = PInt 300\<rparr>;
        g1 = fetch_routing_info w (''core1'', 7687) s;
        g2 = parse_routing_info (parse_address w) (timer w (clock (snd g1))) good (store (snd g1));
        g3 = fetch_routing_table w (''core1'', 7687) s;
        b1 = fetch_routing_info w (''core9'', 7687) s;
        b2 = parse_routing_info (parse_address w) (timer w (clock (snd b1))) bad (store (snd b1));
        b3 = fetch_routing_table w (''core9'', 7687) s
    in g1 = (Inr (Some good), snd g1) \<and> g2 = (Inr t, snd g2)
     \<and> cells (snd g2) (routers t) \<noteq> [] \<and> cells (snd g2) (readers t) \<noteq> []
     \<and> cells (snd g2) (writers t) = []
     \<and> fst g3 = Inr (Some t) \<and> missing_writer (snd g3)
     \<and> b1 = (Inr (Some bad), snd b1) \<and> b2 = (Inr t, snd b2)
     \<and> cells (snd b2) (readers t) = [] \<and> cells (snd b2) (writers t) \<noteq> []
     \<and> fst b3 = Inl (Exn RoutingProtocolError ''No read servers returned from server core9'')
     \<and> \<not> missing_writer (snd b3))"
  (is "Let ?good (\<lambda>good. Let ?bad (\<lambda>bad. Let (?w good bad) _))")
  using fetch_routing_table_validation [of "?w ?good ?bad" "(''core1'', 7687)"
          "RoutingConnectionPool_init (?w ?good ?bad) (''core1'', 7687) [(''core1'', 7687), (''core9'', 7687)]"
          ?good
          "snd (fetch_routing_info (?w ?good ?bad) (''core1'', 7687)
             (RoutingConnectionPool_init (?w ?good ?bad) (''core1'', 7687) [(''core1'', 7687), (''core9'', 7687)]))"
          "\<lparr>routers = 3, readers = 4, writers = 5, last_updated_time = seconds 1, ttl = PInt 300\<rparr>"
          "snd (parse_routing_info (parse_address (?w ?good ?bad)) (seconds 1) ?good
             (store (snd (fetch_routing_info (?w ?good ?bad) (''core1'', 7687)
             (RoutingConnectionPool_init (?w ?good ?bad) (''core1'', 7687) [(''core1'', 7687), (''core9'', 7687)])))))"]
        fetch_routing_table_validation [of "?w ?good ?bad" "(''core9'', 7687)"
          "RoutingConnectionPool_init (?w ?good ?bad) (''core1'', 7687) [(''core1'', 7687), (''core9'', 7687)]"
          ?bad
          "snd (fetch_routing_info (?w ?good ?bad) (''core9'', 7687)
             (RoutingConnectionPool_init (?w ?good ?bad) (''core1'', 7687) [(''core1'', 7687), (''core9'', 7687)]))"
          "\<lparr>routers = 3, readers = 4, writers = 5, last_updated_time = seconds 1, ttl = PInt 300\<rparr>"
          "snd (parse_routing_info (parse_address (?w ?good ?bad)) (seconds 1) ?bad
             (store (snd (fetch_routing_info (?w ?good ?bad) (''core9'', 7687)
             (RoutingConnectionPool_init (?w ?good ?bad) (''core1'', 7687) [(''core1'', 7687), (''core9'', 7687)])))))"]
  by (simp add: run_defs)

text \<open>
  Claim C9. The flag is assigned before the candidate is validated: when the candidate
  has no router or no reader the call raises \<open>RoutingProtocolError\<close>, and the pool it
  leaves behind is the pool after parsing with \<open>missing_writer\<close> set to "the candidate has
  no writer"; nothing restores the former value of the flag.
\<close>

theorem missing_writer_not_rolled_back:
  assumes "fetch_routing_info w address s = (Inr (Some info), s1)"
      and "parse_routing_info (parse_address w) (timer w (clock s1)) info (store s1) = (Inr t, h)"
      and "cells h (routers t) = [] \<or> cells h (readers t) = []"
  shows "isl (fst (fetch_routing_table w address s))
       \<and> error_class_of (projl (fst (fetch_routing_table w address s))) = RoutingProtocolError
       \<and> snd (fetch_routing_table w address s)
           = s1\<lparr>store := h, clock := Suc (clock s1), missing_writer := (cells h (writers t) = [])\<rparr>"
  using assms(3) by (auto simp add: fetch_routing_table_parsed [OF assms(1,2)] Let_def)

theorem missing_writer_not_rolled_back_witness:
  "(let w = \<lparr>timer = (\<lambda>n. seconds (int n)), parse_address = (\<lambda>v. Inl (Exn ValueError [])), repr_address = fst,
             routing_reply = (\<lambda>log a. Records [PDict [(''servers'', PList []), (''ttl'', PInt 300)]]),
             acquire_direct = (\<lambda>log a. Inl (Exn ServiceUnavailable [])),
             in_use_connection_count = (\<lambda>log a. 0),
             connections = (\<lambda>log1 log2. [])\<rparr>;
        s = RoutingConnectionPool_init w (''a'', 1) [(''a'', 1)];
        r1 = fetch_routing_info w (''a'', 1) s;
        r2 = parse_routing_info (parse_address w) (timer w (clock (snd r1)))
               [PDict [(''servers'', PList []), (''ttl'', PInt 300)]] (store (snd r1));
        r3 = fetch_routing_table w (''a'', 1) s
    in r1 = (Inr (Some [PDict [(''servers'', PList []), (''ttl'', PInt 300)]]), snd r1)
     \<and> r2 = (Inr \<lparr>routers = 3, readers = 4, writers = 5, last_updated_time = seconds 1, ttl = PInt 300\<rparr>, snd r2)
     \<and> cells (snd r2) 3 = []
     \<and> \<not> missing_writer s
     \<and> fst r3 = Inl (Exn RoutingProtocolError ''No routing servers returned from server a'')
     \<and> missing_writer (snd r3))"
  (is "Let ?w _")
  using missing_writer_not_rolled_back [of ?w "(''a'', 1)"
      "RoutingConnectionPool_init ?w (''a'', 1) [(''a'', 1)]"
      "[PDict [(''servers'', PList []), (''ttl'', PInt 300)]]"
      "snd (fetch_routing_info ?w (''a'', 1) (RoutingConnectionPool_init ?w (''a'', 1) [(''a'', 1)]))"
      "\<lparr>routers = 3, readers = 4, writers = 5, last_updated_time = seconds 1, ttl = PInt 300\<rparr>"
      "snd (parse_routing_info (parse_address ?w) (seconds 1)
               [PDict [(''servers'', PList []), (''ttl'', PInt 300)]]
               (store (snd (fetch_routing_info ?w (''a'', 1)
                  (RoutingConnectionPool_init ?w (''a'', 1) [(''a'', 1)])))))"]
  by (simp add: run_defs)

section \<open>Selecting the least connected address\<close>

lemma select_loop_fold:
  assumes "k < length addresses"
  shows "select_loop in_use addresses offset
           ((start_index_of offset (length addresses) + k) mod length addresses) la lc
         = Inr (fst (fold (visit_step in_use)
                  (drop k (rotate (start_index_of offset (length addresses)) addresses)) (la, lc)))"
  using assms
proof (induction "length addresses - Suc k" arbitrary: k la lc)
  case 0
  define n where "n = length addresses"
  define s where "s = start_index_of offset n"
  define w where "w = rotate s addresses"
  from 0 have k: "Suc k = n" by (simp add: n_def)
  then have n: "0 < n" by simp
  have idx: "(s + k) mod n < n" using n by simp
  have next_idx: "Suc ((s + k) mod n) mod n = s mod n"
    using k by (metis add_Suc_right mod_Suc_eq mod_add_self2)
  have s: "s < n" using n by (simp add: s_def start_index_of_def nat_less_iff)
  have wk: "w ! k = addresses ! ((s + k) mod n)"
    using 0(2) by (simp add: w_def n_def nth_rotate)
  have "length w = Suc k" using k by (simp add: w_def n_def)
  then have dr: "drop k w = [w ! k]"
    by (metis Cons_nth_drop_Suc drop_all lessI order_refl)
  show ?case
    apply (subst select_loop.simps)
    using idx next_idx s wk dr
    by (simp add: Let_def n_def [symmetric] s_def [symmetric] w_def [symmetric] visit_step_def)
next
  case (Suc m)
  define n where "n = length addresses"
  define s where "s = start_index_of offset n"
  define w where "w = rotate s addresses"
  from Suc(2) have k: "Suc k < n" by (simp add: n_def)
  then have n: "0 < n" by simp
  have idx: "(s + k) mod n < n" using n by simp
  have s: "s < n" using n by (simp add: s_def start_index_of_def nat_less_iff)
  have next_idx: "Suc ((s + k) mod n) mod n = (s + Suc k) mod n"
    by (simp add: mod_Suc_eq)
  have ne: "(s + Suc k) mod n \<noteq> s"
  proof (cases "s + Suc k < n")
    case True
    then show ?thesis by simp
  next
    case False
    then have "(s + Suc k) mod n = (s + Suc k - n) mod n" by (simp add: le_mod_geq)
    also have "\<dots> = s + Suc k - n" using s k by simp
    finally show ?thesis using k False by simp
  qed
  have wk: "w ! k = addresses ! ((s + k) mod n)"
    using k by (simp add: w_def n_def nth_rotate)
  have "k < length w" using k by (simp add: w_def n_def)
  then have dr: "drop k w = w ! k # drop (Suc k) w"
    by (simp add: Cons_nth_drop_Suc)
  have m: "m = length addresses - Suc (Suc k)" using Suc(2) by simp
  have k': "Suc k < length addresses" using k by (simp add: n_def)
  have IH: "select_loop in_use addresses offset (Suc (s + k) mod n) la' lc'
             = Inr (fst (fold (visit_step in_use) (drop (Suc k) w) (la', lc')))" for la' lc'
    using Suc(1) [OF m k', of la' lc'] by (simp add: n_def s_def w_def)
  show ?case
    apply (subst select_loop.simps)
    using idx next_idx s wk dr ne
    by (simp add: Let_def n_def [symmetric] s_def [symmetric] w_def [symmetric] visit_step_def IH)
qed

lemma fold_visit_step:
  "if \<exists>x \<in> set xs. in_use x < lc
   then \<exists>k < length xs.
          fold (visit_step in_use) xs (la, lc) = (Some (xs ! k), in_use (xs ! k))
          \<and> in_use (xs ! k) < lc
          \<and> (\<forall>j < length xs. in_use (xs ! k) \<le> in_use (xs ! j))
          \<and> (\<forall>j < k. in_use (xs ! k) < in_use (xs ! j))
   else fold (visit_step in_use) xs (la, lc) = (la, lc)"
proof (induction xs arbitrary: la lc)
  case Nil
  show ?case by simp
next
  case (Cons x xs)
  define la' where "la' = (if in_use x < lc then Some x else la)"
  define lc' where "lc' = (if in_use x < lc then in_use x else lc)"
  have step: "fold (visit_step in_use) (x # xs) (la, lc) = fold (visit_step in_use) xs (la', lc')"
    by (simp add: visit_step_def la'_def lc'_def)
  have le: "lc' \<le> lc" "lc' \<le> in_use x" by (simp_all add: lc'_def)
  show ?case
  proof (cases "\<exists>y \<in> set xs. in_use y < lc'")
    case True
    with Cons.IH [of lc' la'] obtain k where k: "k < length xs"
      "fold (visit_step in_use) xs (la', lc') = (Some (xs ! k), in_use (xs ! k))"
      "in_use (xs ! k) < lc'"
      "\<forall>j < length xs. in_use (xs ! k) \<le> in_use (xs ! j)"
      "\<forall>j < k. in_use (xs ! k) < in_use (xs ! j)" by auto
    have ex: "\<exists>y \<in> set (x # xs). in_use y < lc" using True le by fastforce
    have "Suc k < length (x # xs)" using k(1) by simp
    moreover have "fold (visit_step in_use) (x # xs) (la, lc)
                     = (Some ((x # xs) ! Suc k), in_use ((x # xs) ! Suc k))"
      using step k(2) by simp
    moreover have "in_use ((x # xs) ! Suc k) < lc" using k(3) le by simp
    moreover have "\<forall>j < length (x # xs). in_use ((x # xs) ! Suc k) \<le> in_use ((x # xs) ! j)"
    proof (intro allI impI)
      fix j assume "j < length (x # xs)"
      then show "in_use ((x # xs) ! Suc k) \<le> in_use ((x # xs) ! j)"
        using k(3,4) le by (cases j) auto
    qed
    moreover have "\<forall>j < Suc k. in_use ((x # xs) ! Suc k) < in_use ((x # xs) ! j)"
    proof (intro allI impI)
      fix j assume "j < Suc k"
      then show "in_use ((x # xs) ! Suc k) < in_use ((x # xs) ! j)"
        using k(3,5) le by (cases j) auto
    qed
    ultimately show ?thesis using ex by (auto simp only: if_True)
  next
    case False
    with Cons.IH [of lc' la'] have res: "fold (visit_step in_use) xs (la', lc') = (la', lc')"
      by auto
    show ?thesis
    proof (cases "in_use x < lc")
      case True
      then have "la' = Some x" "lc' = in_use x" by (simp_all add: la'_def lc'_def)
      then have "fold (visit_step in_use) (x # xs) (la, lc) = (Some ((x # xs) ! 0), in_use ((x # xs) ! 0))"
        using step res by simp
      moreover have "in_use ((x # xs) ! 0) < lc" using True by simp
      moreover have "\<forall>j < length (x # xs). in_use ((x # xs) ! 0) \<le> in_use ((x # xs) ! j)"
      proof (intro allI impI)
        fix j assume "j < length (x # xs)"
        then show "in_use ((x # xs) ! 0) \<le> in_use ((x # xs) ! j)"
          using False \<open>lc' = in_use x\<close> by (cases j) (auto simp add: not_less)
      qed
      ultimately have "\<exists>k < length (x # xs).
          fold (visit_step in_use) (x # xs) (la, lc) = (Some ((x # xs) ! k), in_use ((x # xs) ! k))
          \<and> in_use ((x # xs) ! k) < lc
          \<and> (\<forall>j < length (x # xs). in_use ((x # xs) ! k) \<le> in_use ((x # xs) ! j))
          \<and> (\<forall>j < k. in_use ((x # xs) ! k) < in_use ((x # xs) ! j))"
        by (intro exI [of _ 0]) simp
      moreover have "\<exists>y \<in> set (x # xs). in_use y < lc" using True by simp
      ultimately show ?thesis by (simp only: if_True)
    next
      case F: False
      then have "la' = la" "lc' = lc" by (simp_all add: la'_def lc'_def)
      then have "fold (visit_step in_use) (x # xs) (la, lc) = (la, lc)" using step res by simp
      moreover have "\<not> (\<exists>y \<in> set (x # xs). in_use y < lc)"
        using False F \<open>lc' = lc\<close> by simp
      ultimately show ?thesis by (simp only: if_False)
    qed
  qed
qed


lemma select_fold:
  "select in_use offset addresses =
     Inr (if addresses = [] then None
          else fst (fold (visit_step in_use)
                 (rotate (start_index_of offset (length addresses)) addresses) (None, maxsize)))"
proof (cases "addresses = []")
  case True
  then show ?thesis by (simp add: select_def)
next
  case False
  then have "0 < length addresses" by simp
  from select_loop_fold [OF this, of in_use offset None maxsize]
  have "select_loop in_use addresses offset (start_index_of offset (length addresses)) None maxsize
        = Inr (fst (fold (visit_step in_use)
                 (rotate (start_index_of offset (length addresses)) addresses) (None, maxsize)))"
    using \<open>0 < length addresses\<close> by (simp add: start_index_of_def nat_less_iff)
  with False show ?thesis by (simp add: select_def)
qed

text \<open>
  Claim C3. \<open>_select\<close> returns \<open>None\<close> for the empty sequence. For a non-empty sequence
  in which some address has fewer than \<open>sys.maxsize\<close> connections in use (a count of
  connections always has), it returns the address met at some step \<open>k\<close> of the walk that
  starts at \<open>offset mod n\<close> and goes round the ring once: its count, as read by the walk,
  is at most the count of every address, and strictly less than the count of every
  address met before step \<open>k\<close>, so the first address met wins a tie. \<open>select_reader\<close>
  and \<open>select_writer\<close> return what \<open>_select\<close> returns and add one to their own offset,
  whatever the sequence and the outcome.
\<close>

theorem select_least_connected:
  "(addresses = [] \<longrightarrow> select in_use offset addresses = Inr None)
 \<and> (addresses \<noteq> [] \<and> (\<exists>a \<in> set addresses. in_use a < maxsize) \<longrightarrow>
      (\<exists>k < length addresses.
         select in_use offset addresses
           = Inr (Some (addresses ! ((start_index_of offset (length addresses) + k) mod length addresses)))
         \<and> (\<forall>j < length addresses.
               in_use (addresses ! ((start_index_of offset (length addresses) + k) mod length addresses))
                 \<le> in_use (addresses ! ((start_index_of offset (length addresses) + j) mod length addresses)))
         \<and> (\<forall>a \<in> set addresses.
               in_use (addresses ! ((start_index_of offset (length addresses) + k) mod length addresses))
                 \<le> in_use a)
         \<and> (\<forall>j < k.
               in_use (addresses ! ((start_index_of offset (length addresses) + k) mod length addresses))
                 < in_use (addresses ! ((start_index_of offset (length addresses) + j) mod length addresses)))))
 \<and> select_reader in_use addresses lb
      = (select in_use (readers_offset lb) addresses, lb\<lparr>readers_offset := readers_offset lb + 1\<rparr>)
 \<and> select_writer in_use addresses lb
      = (select in_use (writers_offset lb) addresses, lb\<lparr>writers_offset := writers_offset lb + 1\<rparr>)"
proof (intro conjI impI)
  show "select in_use offset addresses = Inr None" if "addresses = []"
    using that by (simp add: select_def)
next
  assume a: "addresses \<noteq> [] \<and> (\<exists>a \<in> set addresses. in_use a < maxsize)"
  define n where "n = length addresses"
  define s where "s = start_index_of offset n"
  define w where "w = rotate s addresses"
  have n: "0 < n" using a by (simp add: n_def)
  have lw: "length w = n" by (simp add: w_def n_def)
  have nth: "w ! j = addresses ! ((s + j) mod n)" if "j < n" for j
    using that by (simp add: w_def n_def nth_rotate)
  have "\<exists>x \<in> set w. in_use x < maxsize" using a by (simp add: w_def)
  with fold_visit_step [of w in_use maxsize None] obtain k where k: "k < length w"
    "fold (visit_step in_use) w (None, maxsize) = (Some (w ! k), in_use (w ! k))"
    "\<forall>j < length w. in_use (w ! k) \<le> in_use (w ! j)"
    "\<forall>j < k. in_use (w ! k) < in_use (w ! j)"
    by (auto simp only: if_True)
  have sel: "select in_use offset addresses = Inr (Some (w ! k))"
    using a k(2) by (simp add: select_fold w_def s_def n_def)
  have all: "in_use (w ! k) \<le> in_use b" if "b \<in> set addresses" for b
  proof -
    from that have "b \<in> set w" by (simp add: w_def)
    then obtain j where "j < length w" "w ! j = b" by (auto simp add: in_set_conv_nth)
    with k(3) show ?thesis by auto
  qed
  have "k < n" using k(1) lw by simp
  moreover have "select in_use offset addresses = Inr (Some (addresses ! ((s + k) mod n)))"
    using sel nth [OF \<open>k < n\<close>] by simp
  moreover have "\<forall>j < n. in_use (addresses ! ((s + k) mod n)) \<le> in_use (addresses ! ((s + j) mod n))"
    using k(3) lw nth \<open>k < n\<close> by simp
  moreover have "\<forall>b \<in> set addresses. in_use (addresses ! ((s + k) mod n)) \<le> in_use b"
    using all nth [OF \<open>k < n\<close>] by simp
  moreover have "\<forall>j < k. in_use (addresses ! ((s + k) mod n)) < in_use (addresses ! ((s + j) mod n))"
    using k(4) nth \<open>k < n\<close> by simp
  ultimately show "\<exists>k < length addresses.
         select in_use offset addresses
           = Inr (Some (addresses ! ((start_index_of offset (length addresses) + k) mod length addresses)))
         \<and> (\<forall>j < length addresses.
               in_use (addresses ! ((start_index_of offset (length addresses) + k) mod length addresses))
                 \<le> in_use (addresses ! ((start_index_of offset (length addresses) + j) mod length addresses)))
         \<and> (\<forall>a \<in> set addresses.
               in_use (addresses ! ((start_index_of offset (length addresses) + k) mod length addresses))
                 \<le> in_use a)
         \<and> (\<forall>j < k.
               in_use (addresses ! ((start_index_of offset (length addresses) + k) mod length addresses))
                 < in_use (addresses ! ((start_index_of offset (length addresses) + j) mod length addresses)))"
    unfolding n_def [symmetric] s_def [symmetric] by blast
next
  show "select_reader in_use addresses lb
      = (select in_use (readers_offset lb) addresses, lb\<lparr>readers_offset := readers_offset lb + 1\<rparr>)"
    by (simp add: select_reader_def select_fold)
next
  show "select_writer in_use addresses lb
      = (select in_use (writers_offset lb) addresses, lb\<lparr>writers_offset := writers_offset lb + 1\<rparr>)"
    by (simp add: select_writer_def select_fold)
qed

text \<open>The definitions that evaluate a selection on a concrete input.\<close>

lemmas select_run =
  select_def select_reader_def select_writer_def start_index_of_def maxsize_def Let_def
  select_loop.simps

theorem select_least_connected_witness:
  "(let in_use = (\<lambda>a. if a = (''a'', 1) then 2 else 1);
        addresses = [(''a'', 1), (''b'', 2), (''c'', 3)];
        lb = \<lparr>readers_offset = 5, writers_offset = 7\<rparr>
    in select in_use 5 [] = Inr None
     \<and> addresses \<noteq> []
     \<and> in_use (''b'', 2) < maxsize
     \<and> start_index_of 5 (length addresses) = 2
     \<and> select in_use 5 addresses = Inr (Some (''c'', 3))
     \<and> select in_use 7 addresses = Inr (Some (''b'', 2))
     \<and> select_reader in_use addresses lb
          = (Inr (Some (''c'', 3)), \<lparr>readers_offset = 6, writers_offset = 7\<rparr>)
     \<and> select_writer in_use [] lb = (Inr None, \<lparr>readers_offset = 5, writers_offset = 8\<rparr>))"
  (is "Let ?u _")
  using select_least_connected [of "[]" ?u 5 \<open>\<lparr>readers_offset = 5, writers_offset = 7\<rparr>\<close>]
        select_least_connected [of "[(''a'', 1), (''b'', 2), (''c'', 3)]" ?u 5
          \<open>\<lparr>readers_offset = 5, writers_offset = 7\<rparr>\<close>]
  by (simp add: select_run)

section \<open>The set objects of the pool's routing table\<close>

lemma fromkeys_distinct_aux: "distinct (ys @ xs) \<Longrightarrow> fold setitem xs ys = ys @ xs"
  by (induction xs arbitrary: ys) (auto simp add: setitem_def)

lemma fromkeys_distinct: "distinct xs \<Longrightarrow> fromkeys xs = xs"
  using fromkeys_distinct_aux [of "[]" xs] by (simp add: fromkeys_def dict_update_def)

lemma replace_cells:
  "cells (OrderedSet_replace r src h) r' =
     (if r' = r then (if src = r then [] else fromkeys (cells h src)) else cells h r')"
  by (simp add: OrderedSet_replace_def OrderedSet_clear_def OrderedSet_update_def
      OrderedSet_iter_def fromkeys_def dict_update_def Let_def)

lemma update_set_objects:
  "set_objects (fst (RoutingTable_update self new now h)) = set_objects self"
  by (simp add: RoutingTable_update_def set_objects_def Let_def)

lemma deactivate_table: "routing_table (deactivate a s) = routing_table s"
  by (simp add: deactivate_def Let_def)

lemma fetch_routing_info_table: "routing_table (snd (fetch_routing_info w a s)) = routing_table s"
  by (simp add: fetch_routing_info_def Let_def deactivate_table split: reply.splits sum.splits)

lemma fetch_routing_table_table: "routing_table (snd (fetch_routing_table w a s)) = routing_table s"
proof -
  obtain r s1 where f: "fetch_routing_info w a s = (r, s1)" by (cases "fetch_routing_info w a s")
  then have "routing_table s1 = routing_table s"
    using fetch_routing_info_table [of w a s] by simp
  then show ?thesis
    using f by (simp add: fetch_routing_table_def Let_def split: sum.splits option.splits prod.splits)
qed

lemma update_routing_table_from_objects:
  "set_objects (routing_table (snd (update_routing_table_from w rs s))) = set_objects (routing_table s)"
proof (induction rs arbitrary: s)
  case Nil
  show ?case by simp
next
  case (Cons r rs)
  obtain x s1 where f: "fetch_routing_table w r s = (x, s1)" by (cases "fetch_routing_table w r s")
  then have t: "routing_table s1 = routing_table s"
    using fetch_routing_table_table [of w r s] by simp
  show ?case
  proof (cases x)
    case (Inl e)
    with f t show ?thesis by simp
  next
    case (Inr o1)
    show ?thesis
    proof (cases o1)
      case None
      with f t Inr Cons.IH [of s1] show ?thesis by simp
    next
      case (Some new)
      with f t Inr update_set_objects [of "routing_table s" new "timer w (clock s1)" "store s1"]
      show ?thesis by (simp add: split_def Let_def)
    qed
  qed
qed

section \<open>Refreshing the routing table\<close>

lemma deactivate_fields:
  "contacted (deactivate a s) = contacted s" "initial_address (deactivate a s) = initial_address s"
  "missing_writer (deactivate a s) = missing_writer s" "clock (deactivate a s) = clock s"
  "acquired (deactivate a s) = acquired s"
  "load_balancing_strategy (deactivate a s) = load_balancing_strategy s"
  by (simp_all add: deactivate_def Let_def)

lemma fetch_routing_info_fields:
  "contacted (snd (fetch_routing_info w a s)) = contacted s @ [a]"
  "initial_address (snd (fetch_routing_info w a s)) = initial_address s"
  "clock (snd (fetch_routing_info w a s)) = clock s"
  by (simp_all add: fetch_routing_info_def Let_def deactivate_fields split: reply.splits sum.splits)

lemma fetch_routing_table_fields:
  "contacted (snd (fetch_routing_table w a s)) = contacted s @ [a]"
  "initial_address (snd (fetch_routing_table w a s)) = initial_address s"
proof -
  obtain r s1 where f: "fetch_routing_info w a s = (r, s1)" by (cases "fetch_routing_info w a s")
  then have "contacted s1 = contacted s @ [a]" "initial_address s1 = initial_address s"
    using fetch_routing_info_fields [of w a s] by simp_all
  then show "contacted (snd (fetch_routing_table w a s)) = contacted s @ [a]"
    "initial_address (snd (fetch_routing_table w a s)) = initial_address s"
    using f by (simp_all add: fetch_routing_table_def Let_def split: sum.splits option.splits prod.splits)
qed




lemma update_routing_table_from_fields:
  "initial_address (snd (update_routing_table_from w cs s)) = initial_address s"
proof (induction cs arbitrary: s)
  case Nil
  show ?case by simp
next
  case (Cons c cs)
  obtain x s1 where f: "fetch_routing_table w c s = (x, s1)" by (cases "fetch_routing_table w c s")
  then have i: "initial_address s1 = initial_address s"
    using fetch_routing_table_fields(2) [of w c s] by simp
  show ?case
    using f i Cons.IH [of s1]
    by (simp add: split_def Let_def split: sum.splits option.splits)
qed

lemma update_routing_table_from_append:
  "update_routing_table_from w (xs @ ys) s =
     (case update_routing_table_from w xs s of
        (Inr False, s1) \<Rightarrow> update_routing_table_from w ys s1
      | (Inr True, s1) \<Rightarrow> (Inr True, s1)
      | (Inl e, s1) \<Rightarrow> (Inl e, s1))"
proof (induction xs arbitrary: s)
  case Nil
  show ?case by simp
next
  case (Cons c cs)
  obtain x s1 where f: "fetch_routing_table w c s = (x, s1)" by (cases "fetch_routing_table w c s")
  show ?case
  proof (cases x)
    case (Inl e)
    with f show ?thesis by simp
  next
    case (Inr o1)
    show ?thesis
    proof (cases o1)
      case None
      with f Inr Cons.IH [of s1] show ?thesis by simp
    next
      case (Some new)
      with f Inr show ?thesis by (simp add: split_def Let_def)
    qed
  qed
qed





lemma update_routing_table_candidates:
  "update_routing_table w s =
     (case update_routing_table_from w (router_candidates s) s of
        (Inl e, s') \<Rightarrow> (Inl e, s')
      | (Inr True, s') \<Rightarrow> (Inr (), s')
      | (Inr False, s') \<Rightarrow>
          (Inl (Exn ServiceUnavailable ''Unable to retrieve routing information''), s'))"
proof -
  define existing where "existing = cells (store s) (routers (routing_table s))"
  define initial where "initial = initial_address s"
  show ?thesis
  proof (cases "missing_writer s")
    case True
    then have cands: "router_candidates s = [initial] @ existing"
      by (simp add: router_candidates_def existing_def initial_def Let_def)
    obtain x s1 where a: "update_routing_table_from w [initial] s = (x, s1)"
      by (cases "update_routing_table_from w [initial] s")
    obtain y s2 where b: "update_routing_table_from w existing s1 = (y, s2)"
      by (cases "update_routing_table_from w existing s1")
    have lhs: "update_routing_table w s =
        (case x of Inl e \<Rightarrow> (Inl e, s1) | Inr True \<Rightarrow> (Inr (), s1)
         | Inr False \<Rightarrow> (case y of Inl e \<Rightarrow> (Inl e, s2) | Inr True \<Rightarrow> (Inr (), s2)
             | Inr False \<Rightarrow> (Inl (Exn ServiceUnavailable ''Unable to retrieve routing information''), s2)))"
      using True a b
      by (simp add: update_routing_table_def OrderedSet_iter_def Let_def
          existing_def [symmetric] initial_def [symmetric]
          del: update_routing_table_from.simps split: sum.splits bool.splits)
    have rhs: "update_routing_table_from w (router_candidates s) s =
        (case x of Inr False \<Rightarrow> (y, s2) | Inr True \<Rightarrow> (Inr True, s1) | Inl e \<Rightarrow> (Inl e, s1))"
      unfolding cands update_routing_table_from_append
      using a b by (simp del: update_routing_table_from.simps split: sum.splits bool.splits)
    show ?thesis unfolding lhs rhs by (simp split: sum.splits bool.splits)
  next
    case False
    define extra where "extra = (if initial \<notin> set existing then [initial] else [])"
    from False have cands: "router_candidates s = existing @ extra"
      by (simp add: router_candidates_def existing_def initial_def extra_def Let_def)
    obtain y s2 where b: "update_routing_table_from w existing s = (y, s2)"
      by (cases "update_routing_table_from w existing s")
    then have i: "initial_address s2 = initial"
      using update_routing_table_from_fields [of w existing s] by (simp add: initial_def)
    obtain z s3 where c: "update_routing_table_from w extra s2 = (z, s3)"
      by (cases "update_routing_table_from w extra s2")
    have c': "(if initial \<notin> set existing then update_routing_table_from w [initial] s2
               else (Inr False, s2)) = (z, s3)"
      using c by (simp add: extra_def del: update_routing_table_from.simps split: if_splits)
        (simp add: extra_def)
    have lhs0: "update_routing_table w s =
        (case y of Inl e \<Rightarrow> (Inl e, s2) | Inr True \<Rightarrow> (Inr (), s2)
         | Inr False \<Rightarrow>
             (case (if initial \<notin> set existing then update_routing_table_from w [initial] s2
                    else (Inr False, s2)) of
                (Inl e, s3) \<Rightarrow> (Inl e, s3)
              | (Inr True, s3) \<Rightarrow> (Inr (), s3)
              | (Inr False, s3) \<Rightarrow>
                  (Inl (Exn ServiceUnavailable ''Unable to retrieve routing information''), s3)))"
      using False b i
      by (simp add: update_routing_table_def OrderedSet_iter_def Let_def
          existing_def [symmetric] initial_def [symmetric]
          del: update_routing_table_from.simps split: sum.split bool.split cong: if_cong)
    have lhs: "update_routing_table w s =
        (case y of Inl e \<Rightarrow> (Inl e, s2) | Inr True \<Rightarrow> (Inr (), s2)
         | Inr False \<Rightarrow> (case z of Inl e \<Rightarrow> (Inl e, s3) | Inr True \<Rightarrow> (Inr (), s3)
             | Inr False \<Rightarrow> (Inl (Exn ServiceUnavailable ''Unable to retrieve routing information''), s3)))"
      unfolding lhs0 c' by (simp split: sum.split bool.split)
    have rhs: "update_routing_table_from w (router_candidates s) s =
        (case y of Inr False \<Rightarrow> (z, s3) | Inr True \<Rightarrow> (Inr True, s2) | Inl e \<Rightarrow> (Inl e, s2))"
      unfolding cands update_routing_table_from_append
      using b c by (simp del: update_routing_table_from.simps split: sum.splits bool.splits)
    show ?thesis unfolding lhs rhs by (simp split: sum.splits bool.splits)
  qed
qed


lemma update_routing_table_objects:
  "set_objects (routing_table (snd (update_routing_table w s))) = set_objects (routing_table s)"
proof -
  obtain x s1 where a: "update_routing_table_from w (router_candidates s) s = (x, s1)"
    by (cases "update_routing_table_from w (router_candidates s) s")
  then have "set_objects (routing_table s1) = set_objects (routing_table s)"
    using update_routing_table_from_objects [of w "router_candidates s" s] by simp
  then show ?thesis
    unfolding update_routing_table_candidates a by (simp split: sum.splits bool.splits)
qed

lemma routing_table_is_fresh_table:
  "routing_table (snd (routing_table_is_fresh w m s)) = routing_table s"
  by (simp add: routing_table_is_fresh_def split: sum.splits)

lemma update_connection_pool_table:
  "routing_table (update_connection_pool w s) = routing_table s"
  "store (update_connection_pool w s) = store s"
  by (simp_all add: update_connection_pool_def Let_def)

lemma ensure_routing_table_is_fresh_objects:
  "set_objects (routing_table (snd (ensure_routing_table_is_fresh w m s)))
     = set_objects (routing_table s)"
proof -
  obtain f1 s1 where a: "routing_table_is_fresh w m s = (f1, s1)"
    by (cases "routing_table_is_fresh w m s")
  obtain f2 s2 where b: "routing_table_is_fresh w m s1 = (f2, s2)"
    by (cases "routing_table_is_fresh w m s1")
  obtain f3 s3 where c: "routing_table_is_fresh w WRITE_ACCESS s2 = (f3, s3)"
    by (cases "routing_table_is_fresh w WRITE_ACCESS s2")
  obtain u s4 where d: "update_routing_table w s2 = (u, s4)"
    by (cases "update_routing_table w s2")
  have t1: "routing_table s1 = routing_table s"
    using a routing_table_is_fresh_table [of w m s] by simp
  have t2: "routing_table s2 = routing_table s"
    using b t1 routing_table_is_fresh_table [of w m s1] by simp
  have t3: "routing_table s3 = routing_table s"
    using c t2 routing_table_is_fresh_table [of w WRITE_ACCESS s2] by simp
  have t4: "set_objects (routing_table s4) = set_objects (routing_table s)"
    using d t2 update_routing_table_objects [of w s2] by simp
  show ?thesis
    using a b c d t1 t2 t3 t4
    by (simp add: ensure_routing_table_is_fresh_def update_connection_pool_table
        split: sum.splits)
qed



text \<open>The definitions that evaluate a refresh on a concrete input.\<close>

lemmas pool_run =
  ensure_routing_table_is_fresh_def routing_table_is_fresh_def is_fresh_def
  update_routing_table_def update_connection_pool_def servers_def RoutingTable_update_def
  OrderedSet_replace_def OrderedSet_clear_def OrderedSet_update_def OrderedSet_iter_def
  READ_ACCESS_def WRITE_ACCESS_def acquire_def router_candidates_def unreachable_def usable_def
  float_run




section \<open>Updating the routing table in place\<close>

text \<open>
  Claim C10. \<open>RoutingTable.update\<close> keeps the three set objects of the table and changes
  their contents: after the update the table refers to the same three objects, and (the
  three being distinct objects, none of them an object of the new table) each holds the
  keys of the corresponding set of the new table. \<open>ensure_routing_table_is_fresh\<close>, the
  refresh included, leaves the pool's table with the same three objects; so the set that
  \<open>acquire\<close> captured as \<open>server_list\<close> before the refresh is the readers (writers) set of
  the table after it, and the loop of \<open>acquire\<close> reads the refreshed contents through it.
\<close>

theorem update_in_place:
  "routers (fst (RoutingTable_update self new now h)) = routers self
 \<and> readers (fst (RoutingTable_update self new now h)) = readers self
 \<and> writers (fst (RoutingTable_update self new now h)) = writers self
 \<and> (distinct [routers self, readers self, writers self]
      \<and> set [routers new, readers new, writers new]
          \<inter> set [routers self, readers self, writers self] = {} \<longrightarrow>
      cells (snd (RoutingTable_update self new now h)) (routers self) = fromkeys (cells h (routers new))
    \<and> cells (snd (RoutingTable_update self new now h)) (readers self) = fromkeys (cells h (readers new))
    \<and> cells (snd (RoutingTable_update self new now h)) (writers self) = fromkeys (cells h (writers new)))
 \<and> routers (routing_table (snd (ensure_routing_table_is_fresh w access_mode s)))
      = routers (routing_table s)
 \<and> readers (routing_table (snd (ensure_routing_table_is_fresh w access_mode s)))
      = readers (routing_table s)
 \<and> writers (routing_table (snd (ensure_routing_table_is_fresh w access_mode s)))
      = writers (routing_table s)
 \<and> (ensure_routing_table_is_fresh w READ_ACCESS s = (Inr u, s1) \<longrightarrow>
      acquire w (Some READ_ACCESS) s
        = acquire_loop w READ_ACCESS (readers (routing_table s1)) select_reader s1)
 \<and> (ensure_routing_table_is_fresh w WRITE_ACCESS s = (Inr u, s1) \<longrightarrow>
      acquire w (Some WRITE_ACCESS) s
        = acquire_loop w WRITE_ACCESS (writers (routing_table s1)) select_writer s1)"
proof -
  have o: "set_objects (routing_table (snd (ensure_routing_table_is_fresh w m s)))
             = set_objects (routing_table s)" for m
    by (rule ensure_routing_table_is_fresh_objects)
  have r: "acquire w (Some READ_ACCESS) s
             = acquire_loop w READ_ACCESS (readers (routing_table s1)) select_reader s1"
    if "ensure_routing_table_is_fresh w READ_ACCESS s = (Inr u, s1)"
    using that o [of READ_ACCESS] by (simp add: acquire_def set_objects_def Let_def)
  have wr: "acquire w (Some WRITE_ACCESS) s
             = acquire_loop w WRITE_ACCESS (writers (routing_table s1)) select_writer s1"
    if "ensure_routing_table_is_fresh w WRITE_ACCESS s = (Inr u, s1)"
    using that o [of WRITE_ACCESS]
    by (simp add: acquire_def set_objects_def Let_def READ_ACCESS_def WRITE_ACCESS_def)
  show ?thesis
    using o [of access_mode] r wr
    by (auto simp add: RoutingTable_update_def Let_def replace_cells set_objects_def)
qed

theorem update_in_place_witness:
  "(let w = \<lparr>timer = (\<lambda>n. seconds (int n)),
             parse_address = (\<lambda>v. case v of PStr s \<Rightarrow> Inr (s, 7687) | _ \<Rightarrow> Inl (Exn TypeError [])),
             repr_address = fst,
             routing_reply = (\<lambda>history a. Records
               [PDict [(''ttl'', PInt 300),
                       (''servers'', PList
                          [PDict [(''role'', PStr ''ROUTE''), (''addresses'', PList [PStr ''core1''])],
                           PDict [(''role'', PStr ''READ''), (''addresses'', PList [PStr ''core2''])],
                           PDict [(''role'', PStr ''WRITE''), (''addresses'', PList [PStr ''core3''])]])]]),
             acquire_direct = (\<lambda>history a. Inl (Exn ServiceUnavailable [])),
             in_use_connection_count = (\<lambda>history a. 0),
             connections = (\<lambda>history1 history2. [])\<rparr>;
        s = RoutingConnectionPool_init w (''core1'', 7687) [(''core1'', 7687)];
        r = ensure_routing_table_is_fresh w READ_ACCESS s;
        self = \<lparr>routers = 0, readers = 1, writers = 2, last_updated_time = seconds 0, ttl = PInt 0\<rparr>;
        new = \<lparr>routers = 3, readers = 4, writers = 5, last_updated_time = seconds 2, ttl = PInt 300\<rparr>;
        u = RoutingTable_update self new (seconds 9) (store (snd r))
    in r = (Inr True, snd r)
     \<and> readers (routing_table s) = 1
     \<and> cells (store s) 1 = []
     \<and> readers (routing_table (snd r)) = 1
     \<and> cells (store (snd r)) 1 = [(''core2'', 7687)]
     \<and> acquire w (Some READ_ACCESS) s = acquire_loop w READ_ACCESS 1 select_reader (snd r)
     \<and> distinct [routers self, readers self, writers self]
     \<and> set [routers new, readers new, writers new] \<inter> set [routers self, readers self, writers self] = {}
     \<and> cells (store (snd r)) 5 = [(''core3'', 7687)]
     \<and> writers (fst u) = 2
     \<and> cells (snd u) 2 = [(''core3'', 7687)])"
  (is "Let ?w _")
  using update_in_place [where w = ?w and access_mode = READ_ACCESS
          and s = "RoutingConnectionPool_init ?w (''core1'', 7687) [(''core1'', 7687)]"
          and u = True
          and ?s1.0 = "snd (ensure_routing_table_is_fresh ?w READ_ACCESS
                  (RoutingConnectionPool_init ?w (''core1'', 7687) [(''core1'', 7687)]))"
          and self = "\<lparr>routers = 0, readers = 1, writers = 2, last_updated_time = seconds 0, ttl = PInt 0\<rparr>"
          and new = "\<lparr>routers = 3, readers = 4, writers = 5, last_updated_time = seconds 2, ttl = PInt 300\<rparr>"
          and now = "seconds 9"
          and h = "store (snd (ensure_routing_table_is_fresh ?w READ_ACCESS
                  (RoutingConnectionPool_init ?w (''core1'', 7687) [(''core1'', 7687)])))"]
  by (simp add: run_defs pool_run)

section \<open>Acquiring a connection\<close>










section \<open>Reactions to errors: \<open>remove_writer\<close> and \<open>handle\<close>\<close>

text \<open>
  Claim C7. \<open>remove_writer(a)\<close> removes \<open>a\<close> from the writers set only: the routers set and
  the readers set keep their contents, the writers set loses \<open>a\<close> and nothing else, no
  address is deactivated, and when \<open>a\<close> is not a writer the call changes nothing (it cannot
  fail). The three sets of a routing table are three objects; that the writers object is
  neither the routers nor the readers object is the hypothesis.
\<close>

theorem remove_writer_frame:
  assumes "writers (routing_table s) \<noteq> routers (routing_table s)"
      and "writers (routing_table s) \<noteq> readers (routing_table s)"
  shows "routing_table (remove_writer a s) = routing_table s
       \<and> cells (store (remove_writer a s)) (routers (routing_table s))
           = cells (store s) (routers (routing_table s))
       \<and> cells (store (remove_writer a s)) (readers (routing_table s))
           = cells (store s) (readers (routing_table s))
       \<and> cells (store (remove_writer a s)) (writers (routing_table s))
           = removeAll a (cells (store s) (writers (routing_table s)))
       \<and> a \<notin> set (cells (store (remove_writer a s)) (writers (routing_table s)))
       \<and> deactivated (remove_writer a s) = deactivated s
       \<and> (a \<notin> set (cells (store s) (writers (routing_table s))) \<longrightarrow> remove_writer a s = s)"
  using assms by (simp add: remove_writer_def discard_cells discard_absent)

theorem remove_writer_frame_witness:
  "(let s = \<lparr>store = \<lparr>cells = (\<lambda>r. if r = 0 then [(''a'', 1), (''b'', 2)]
                                    else if r = 1 then [(''b'', 2)]
                                    else if r = 2 then [(''c'', 3), (''b'', 2)] else []),
                       fresh = 3\<rparr>,
              routing_table = \<lparr>routers = 0, readers = 1, writers = 2,
                               last_updated_time = seconds 0, ttl = PInt 300\<rparr>,
              initial_address = (''a'', 1), missing_writer = False,
              load_balancing_strategy = \<lparr>readers_offset = 0, writers_offset = 0\<rparr>,
              clock = 1, contacted = [], acquired = [], deactivated = []\<rparr>;
        s' = remove_writer (''b'', 2) s
    in writers (routing_table s) \<noteq> routers (routing_table s)
     \<and> writers (routing_table s) \<noteq> readers (routing_table s)
     \<and> cells (store s') 0 = [(''a'', 1), (''b'', 2)]
     \<and> cells (store s') 1 = [(''b'', 2)]
     \<and> cells (store s') 2 = [(''c'', 3)]
     \<and> remove_writer (''z'', 9) s = s)"
  (is "Let ?s _")
  using remove_writer_frame [of ?s "(''b'', 2)"] remove_writer_frame [of ?s "(''z'', 9)"]
  by (simp add: Let_def)

text \<open>
  Claim C8. \<open>handle\<close> compares the class of the error itself with the five classes it
  knows: an error of any other class, a proper subclass of one of the five included,
  leaves the whole pool as it was (the three sets of the routing table and the log of
  deactivations with it).
\<close>

theorem handle_exact_class:
  assumes "error_class_of error \<notin> {ConnectionExpired, ServiceUnavailable, DatabaseUnavailableError,
             NotALeaderError, ForbiddenOnReadOnlyDatabaseError}"
  shows "handle error connection s = s"
  using assms by (simp add: handle_def)

theorem handle_exact_class_witness:
  "error_class_of (Exn (Subclass ServiceUnavailable ''SessionExpired'') ''gone'')
     \<notin> {ConnectionExpired, ServiceUnavailable, DatabaseUnavailableError,
         NotALeaderError, ForbiddenOnReadOnlyDatabaseError}
   \<and> isinstance (Exn (Subclass ServiceUnavailable ''SessionExpired'') ''gone'') ServiceUnavailable
   \<and> (let s = \<lparr>store = \<lparr>cells = (\<lambda>r. [(''b'', 2)]), fresh = 3\<rparr>,
                 routing_table = \<lparr>routers = 0, readers = 1, writers = 2,
                                  last_updated_time = seconds 0, ttl = PInt 300\<rparr>,
                 initial_address = (''a'', 1), missing_writer = False,
                 load_balancing_strategy = \<lparr>readers_offset = 0, writers_offset = 0\<rparr>,
                 clock = 1, contacted = [], acquired = [], deactivated = []\<rparr>
       in handle (Exn (Subclass ServiceUnavailable ''SessionExpired'') ''gone'')
            \<lparr>conn_address = (''b'', 2), conn_Error = ConnectionExpired\<rparr> s = s)"
  (is "_ \<and> _ \<and> Let ?s _")
  using handle_exact_class [of "Exn (Subclass ServiceUnavailable ''SessionExpired'') ''gone''"
          "\<lparr>conn_address = (''b'', 2), conn_Error = ConnectionExpired\<rparr>" ?s]
  by (simp add: isinstance_def Let_def)

end
